theory Spec2Isabelle
  imports Main "HOL-Library.Sublist" "HOL-Library.Monad_Syntax" "HOL-Library.Signed_Division"
begin

section \<open>Strings, streams and containers of the C++ standard library\<close>

text \<open>
  The program works on \<open>std::string\<close> values, which are byte sequences: a \<open>string\<close>
  (list of \<open>char\<close>) here. Two library calls can throw \<open>std::out_of_range\<close>:
  \<open>vector::at\<close> and \<open>string::substr\<close>/\<open>string::replace\<close> with a start position
  beyond the size. The program never catches, so one failure value is enough:
  a result of type \<open>'a option\<close> is \<open>None\<close> exactly when the call throws.

  \<open>string::find\<close> returns \<open>string::npos\<close> when there is no match; its result is a
  \<open>nat option\<close> with \<open>None\<close> for \<open>npos\<close>. The source stores some of these results
  in an \<open>int\<close> and passes them back where a \<open>size_t\<close> is expected; the two conversions
  \<open>int_of_size_t\<close> and \<open>size_t_of_int\<close> are written out, for a 64-bit \<open>size_t\<close> and a
  32-bit \<open>int\<close>: an index of \<open>2^31\<close> or more does not come back as it was.

  \<open>int32 i\<close> is the value a 32-bit \<open>int\<close> holds for the integer \<open>i\<close>: \<open>i\<close> itself when
  it is in range, and \<open>i\<close> modulo \<open>2^32\<close> (two's complement) otherwise. That is what
  the conversion from \<open>size_t\<close> gives, and what a sum or difference of \<open>int\<close> values
  that overflows is taken to give.
\<close>

definition int32 :: "int \<Rightarrow> int" where
  "int32 i = (i + 2 ^ 31) mod 2 ^ 32 - 2 ^ 31"

definition int_of_size_t :: "nat option \<Rightarrow> int" where
  "int_of_size_t r = (case r of None \<Rightarrow> - 1 | Some i \<Rightarrow> int32 (int i))"

definition size_t_of_int :: "int \<Rightarrow> nat" where
  "size_t_of_int i = (if i < 0 then nat (i + 2 ^ 64) else nat i)"

text \<open>\<open>s.find(pat)\<close>: the index of the first occurrence of \<open>pat\<close> in \<open>s\<close>.\<close>

fun str_find :: "string \<Rightarrow> string \<Rightarrow> nat option" where
  "str_find [] pat = (if pat = [] then Some 0 else None)"
| "str_find (c # cs) pat =
     (if prefix pat (c # cs) then Some 0 else map_option Suc (str_find cs pat))"

text \<open>\<open>s.find(pat, pos)\<close>: the first occurrence that starts at or after \<open>pos\<close>.\<close>

definition str_find_from :: "string \<Rightarrow> string \<Rightarrow> nat \<Rightarrow> nat option" where
  "str_find_from s pat pos =
     (if length s < pos then None
      else map_option (\<lambda>i. i + pos) (str_find (drop pos s) pat))"

text \<open>\<open>s.find_first_of(chars)\<close> and \<open>s.find_last_of(chars)\<close>.\<close>

fun find_first_of :: "string \<Rightarrow> string \<Rightarrow> nat option" where
  "find_first_of [] chars = None"
| "find_first_of (c # cs) chars =
     (if c \<in> set chars then Some 0 else map_option Suc (find_first_of cs chars))"

fun find_last_of :: "string \<Rightarrow> string \<Rightarrow> nat option" where
  "find_last_of [] chars = None"
| "find_last_of (c # cs) chars =
     (case find_last_of cs chars of
        Some i \<Rightarrow> Some (Suc i)
      | None \<Rightarrow> if c \<in> set chars then Some 0 else None)"

text \<open>
  \<open>s.substr(pos, len)\<close> and \<open>s.substr(pos)\<close>: throw when \<open>pos > s.size()\<close>, and
  otherwise stop at the end of the string.
\<close>

definition substr :: "string \<Rightarrow> nat \<Rightarrow> nat \<Rightarrow> string option" where
  "substr s pos len = (if length s < pos then None else Some (take len (drop pos s)))"

definition substr_from :: "string \<Rightarrow> nat \<Rightarrow> string option" where
  "substr_from s pos = (if length s < pos then None else Some (drop pos s))"

text \<open>\<open>s.replace(pos, len, str)\<close>: throws when \<open>pos > s.size()\<close>.\<close>

definition str_replace :: "string \<Rightarrow> nat \<Rightarrow> nat \<Rightarrow> string \<Rightarrow> string option" where
  "str_replace s pos len str =
     (if length s < pos then None else Some (take pos s @ str @ drop (pos + len) s))"

text \<open>\<open>v.at(i)\<close> with an \<open>int\<close> argument: a negative \<open>i\<close> converts to a huge index.\<close>

definition at :: "'a list \<Rightarrow> int \<Rightarrow> 'a option" where
  "at v i = (if 0 \<le> i \<and> i < int (length v) then Some (v ! nat i) else None)"

text \<open>
  \<open>::tolower\<close>, \<open>::toupper\<close> and the white space of \<open>operator>>\<close>, in the default
  "C" locale: only the 26 ASCII letters change case, and white space is the space
  character and the five control characters \<open>\t \n \v \f \r\<close>.
\<close>

definition upper_letters :: string where
  "upper_letters = ''ABCDEFGHIJKLMNOPQRSTUVWXYZ''"

definition lower_letters :: string where
  "lower_letters = ''abcdefghijklmnopqrstuvwxyz''"

definition tolower :: "char \<Rightarrow> char" where
  "tolower c = (case map_of (zip upper_letters lower_letters) c of Some d \<Rightarrow> d | None \<Rightarrow> c)"

definition toupper :: "char \<Rightarrow> char" where
  "toupper c = (case map_of (zip lower_letters upper_letters) c of Some d \<Rightarrow> d | None \<Rightarrow> c)"

definition newline :: char where
  "newline = CHR 0x0A"

definition isspace :: "char \<Rightarrow> bool" where
  "isspace c = (c \<in> set [CHR 0x20, CHR 0x09, CHR 0x0A, CHR 0x0B, CHR 0x0C, CHR 0x0D])"

text \<open>
  \<open>stream >> word\<close> on a string stream whose unread part is \<open>stream\<close>: leading white
  space is skipped, then the characters up to the next white space are stored in
  \<open>word\<close>. When only white space is left the extraction fails and \<open>word\<close> keeps the
  value it had. The result is the unread part, the word, and whether the stream is
  still good.
\<close>

definition stream_extract :: "string \<Rightarrow> string \<Rightarrow> string \<times> string \<times> bool" where
  "stream_extract stream word =
     (let s = dropWhile isspace stream in
      if s = [] then ([], word, False)
      else (dropWhile (\<lambda>c. \<not> isspace c) s, takeWhile (\<lambda>c. \<not> isspace c) s, True))"

text \<open>
  \<open>while (getline(stream, line))\<close>: the lines of the text. A line ends at a newline
  character, which is dropped; a last line without a newline counts when it is not
  empty. \<open>cur\<close> holds the characters of the line being read.
\<close>

fun getlines :: "string \<Rightarrow> string \<Rightarrow> string list" where
  "getlines [] cur = (if cur = [] then [] else [cur])"
| "getlines (c # cs) cur =
     (if c = newline then cur # getlines cs [] else getlines cs (cur @ [c]))"

text \<open>
  \<open>transform(s.begin(), ++s.begin(), s.begin(), ::toupper)\<close>: the first character in
  upper case. On an empty string the call writes at \<open>s.end()\<close>, which is undefined;
  the model fails there.
\<close>

definition capitalize :: "string \<Rightarrow> string option" where
  "capitalize s = (case s of [] \<Rightarrow> None | c # cs \<Rightarrow> Some (toupper c # cs))"

section \<open>The note dictionaries\<close>

definition notes_dict :: "string list" where
  "notes_dict = [''ab'', ''a'', ''bb'', ''b'', ''c'', ''db'', ''d'',
                 ''eb'', ''e'', ''f'', ''f#'', ''g'']"

definition altNotes :: "string list" where
  "altNotes = [''g#'', ''a'', ''a#'', ''b'', ''b#'', ''c#'', ''d'',
               ''d#'', ''e'', ''e#'', ''gb'', ''g'']"

text \<open>
  The chord qualities. \<open>main\<close> sorts the vector before anything reads it, and
  \<open>validChordQuality\<close> looks a word up by \<open>std::binary_search\<close>, which on a sorted
  range decides membership; the order of the entries plays no other part.
\<close>

definition chords :: "string list" where
  "chords = [''#5#9'', ''#5b9'', ''11'', ''13'', ''13#11'',
             ''13sus'', ''13sus2'', ''13sus4'', ''2'', ''5'', ''6'',
             ''6/9'', ''7'', ''7#11'', ''7#5'', ''7#9'', ''7b5'',
             ''7b5#9'', ''7b5(#9)'', ''7b9'', ''7sus'', ''7sus2'',
             ''7sus4'', ''9'', ''9sus'', ''9sus2'', ''9sus4'', ''m'',
             ''add9'', ''aug'', ''aug7#9'', ''aug9'', ''b5'', ''b5#9'',
             ''b5b9'', ''dim'', ''dim7'', ''m'', ''m(add9)'',
             ''m(maj7)'', ''m11'', ''m13'', ''m6'', ''m6/9'', ''m7'',
             ''m7b5'', ''m7b9'', ''m9'', ''m9(maj7)'', ''m9m7'',
             ''m9b5'', ''m9maj7'', ''mm7'', ''madd9'', ''maj'',
             ''maj13'', ''maj7'', ''maj7#11'', ''maj9'', ''major'',
             ''mb6'', ''min'', ''minor'', ''mmaj7'', ''sus'',
             ''sus2'', ''sus4'']"

definition isAltNote :: "string \<Rightarrow> bool" where
  "isAltNote note \<longleftrightarrow>
     note = ''g#'' \<or> note = ''a#'' \<or> note = ''c#'' \<or> note = ''d#'' \<or> note = ''gb''"

definition formatNote :: "string \<Rightarrow> string" where
  "formatNote input = (case stream_extract input [] of (_, extractedNote, _) \<Rightarrow> map tolower extractedNote)"

definition validNote :: "string \<Rightarrow> bool" where
  "validNote note =
     (case stream_extract note [] of (_, extractedNote, _) \<Rightarrow>
        let extractedNote = map tolower extractedNote in
        if extractedNote \<in> set notes_dict then True
        else if extractedNote \<in> set altNotes then True
        else False)"

text \<open>
  The loop of \<open>getNoteIndex\<close>, from index \<open>i\<close> on. The counter is an
  \<open>unsigned int\<close>; the program passes the two dictionaries of 12 entries only, where
  it is far from wrapping.
\<close>

function getNoteIndex_loop :: "string list \<Rightarrow> string \<Rightarrow> nat \<Rightarrow> int option" where
  "getNoteIndex_loop chromatic note i =
     (if i < length chromatic then
        do { c \<leftarrow> at chromatic (int i);
             if c = note then Some (int i) else getNoteIndex_loop chromatic note (i + 1) }
      else Some 0)"
  by pat_completeness auto
termination
  by (relation "measure (\<lambda>(chromatic, note, i). length chromatic - i)") auto

declare getNoteIndex_loop.simps [simp del]

definition getNoteIndex :: "string list \<Rightarrow> string \<Rightarrow> int option" where
  "getNoteIndex chromatic note = getNoteIndex_loop chromatic (formatNote note) 0"

section \<open>Keys and intervals\<close>

record Key =
  keyName :: string
  key_id :: int
  key_alt :: bool

text \<open>The two constructors \<open>Key()\<close> and \<open>Key(string)\<close>, and the getters.\<close>

definition Key_default :: Key where
  "Key_default = \<lparr>keyName = [], key_id = 0, key_alt = False\<rparr>"

definition Key_of :: "string \<Rightarrow> Key option" where
  "Key_of name =
     (if isAltNote name then
        do { i \<leftarrow> getNoteIndex altNotes name;
             Some \<lparr>keyName = name, key_id = i, key_alt = True\<rparr> }
      else
        do { i \<leftarrow> getNoteIndex notes_dict name;
             Some \<lparr>keyName = name, key_id = i, key_alt = False\<rparr> })"

definition keyIndex :: "Key \<Rightarrow> int" where
  "keyIndex k = key_id k"

definition usesAltNotes :: "Key \<Rightarrow> bool" where
  "usesAltNotes k = key_alt k"

definition getKeyName :: "Key \<Rightarrow> string" where
  "getKeyName k = keyName k"

definition getInterval :: "Key \<Rightarrow> Key \<Rightarrow> int" where
  "getInterval old newKey =
     (let interval = int32 (keyIndex newKey - keyIndex old) in
      if interval < 0 then int32 (12 + interval) else interval)"

section \<open>The chord grammar\<close>

text \<open>
  \<open>isFlatSharpFive(word, flat5Ind)\<close> returns a flag and writes the index of the match
  through its second argument: the model returns both, and takes the value the
  variable had. The loop runs over the four names in the order of the source.
\<close>

definition shFl5 :: "string list" where
  "shFl5 = [''b5#9'', ''b5b9'', ''#5b9'', ''#5#9'']"

fun isFlatSharpFive_loop :: "string list \<Rightarrow> string \<Rightarrow> int \<Rightarrow> bool \<times> int" where
  "isFlatSharpFive_loop [] word flat5Ind = (False, flat5Ind)"
| "isFlatSharpFive_loop (chord # rest) word flat5Ind =
     (if str_find word chord \<noteq> None then (True, int_of_size_t (str_find word chord))
      else isFlatSharpFive_loop rest word flat5Ind)"

definition isFlatSharpFive :: "string \<Rightarrow> int \<Rightarrow> bool \<times> int" where
  "isFlatSharpFive word flat5Ind = isFlatSharpFive_loop shFl5 word flat5Ind"

definition getRoot :: "string \<Rightarrow> string option" where
  "getRoot word =
     (case isFlatSharpFive word (- 1) of (found, flat5Ind) \<Rightarrow>
        if found then
          (if flat5Ind = 2 then substr word 0 2 else substr word 0 1)
        else if str_find word ''b'' = Some 1 \<or> str_find word ''#'' = Some 1 then
          substr word 0 2
        else substr word 0 1)"

definition validChordQuality :: "string \<Rightarrow> bool" where
  "validChordQuality qual = (let qual = formatNote qual in qual \<in> set chords)"

text \<open>
  \<open>validChord\<close> and \<open>validSlashChord\<close> call each other. \<open>validSlashChord\<close> passes on
  the text before the slash, which is shorter than the word as long as the index of
  the slash survives its trip through \<open>int slashInd\<close>; when it does not (a word
  with its slash at index \<open>2^32 - 1\<close>, which comes back as \<open>- 1\<close>), the text passed
  on is the word itself and the recursion never ends. So the two functions are defined
  as one partial function with a tag for the function called: the result \<open>None\<close> is
  an exception thrown or a call that does not return.
\<close>

datatype grammar_call = ValidChord | ValidSlashChord

partial_function (option) chord_grammar :: "grammar_call \<Rightarrow> string \<Rightarrow> bool option" where
  "chord_grammar call word =
     (case call of
        ValidChord \<Rightarrow>
          if length word = 1 then (if validNote word then Some True else Some False)
          else do {
            slash \<leftarrow> chord_grammar ValidSlashChord word;
            if slash then Some True
            else do {
              root \<leftarrow> getRoot word;
              if \<not> validNote root then Some False
              else if root = word then Some True
              else do {
                qual \<leftarrow> substr_from word (length root);
                Some (validChordQuality qual) } } }
      | ValidSlashChord \<Rightarrow>
          if str_find word ''/'' = None then Some False
          else if find_first_of word ''/'' \<noteq> find_last_of word ''/'' then Some False
          else
            let slashInd = int_of_size_t (str_find word ''/'') in
            if size_t_of_int slashInd = length word - 1 then Some False
            else do {
              preSl \<leftarrow> substr word 0 (size_t_of_int slashInd);
              postSl \<leftarrow> substr_from word (size_t_of_int (int32 (slashInd + 1)));
              pre \<leftarrow> chord_grammar ValidChord preSl;
              if pre \<and> validNote postSl then Some True else Some False })"

declare chord_grammar.simps [code]

definition validChord :: "string \<Rightarrow> bool option" where
  "validChord word = chord_grammar ValidChord word"

definition validSlashChord :: "string \<Rightarrow> bool option" where
  "validSlashChord word = chord_grammar ValidSlashChord word"

section \<open>The transposition engine\<close>

text \<open>
  \<open>%\<close> on \<open>int\<close> truncates towards zero: \<open>smod\<close>. The sum of index and interval is
  a sum of 32-bit \<open>int\<close> values.
\<close>

definition transposeNote :: "string \<Rightarrow> int \<Rightarrow> bool \<Rightarrow> string option" where
  "transposeNote old interval alt =
     (if isAltNote old then
        (if alt then
           do { i \<leftarrow> getNoteIndex altNotes old; at altNotes (int32 (i + interval) smod 12) }
         else
           do { i \<leftarrow> getNoteIndex altNotes old; at notes_dict (int32 (i + interval) smod 12) })
      else
        (if alt then
           do { i \<leftarrow> getNoteIndex notes_dict old; at altNotes (int32 (i + interval) smod 12) }
         else
           do { i \<leftarrow> getNoteIndex notes_dict old; at notes_dict (int32 (i + interval) smod 12) }))"

definition transposeChord :: "string \<Rightarrow> Key \<Rightarrow> Key \<Rightarrow> string option" where
  "transposeChord chord oldKey newKey =
     do {
       root \<leftarrow> getRoot chord;
       let interval = getInterval oldKey newKey;
       let newKeyName = getKeyName newKey;
       let alt = isAltNote newKeyName;
       tranRoot \<leftarrow> transposeNote root interval alt;
       tranRoot \<leftarrow> capitalize tranRoot;
       slash \<leftarrow> validSlashChord chord;
       if slash then
         do {
           let slashInd = int_of_size_t (str_find chord ''/'');
           preSlQuality \<leftarrow> substr chord (length root) (size_t_of_int slashInd);
           post \<leftarrow> substr_from chord (size_t_of_int (int32 (slashInd + 1)));
           newPostSl \<leftarrow> transposeNote post interval alt;
           newPostSl \<leftarrow> capitalize newPostSl;
           Some (tranRoot @ preSlQuality @ newPostSl)
         }
       else
         do {
           qual \<leftarrow> substr_from chord (length root);
           Some (tranRoot @ qual)
         }
     }"

section \<open>The tab transposer\<close>

definition isChordLine :: "string \<Rightarrow> bool option" where
  "isChordLine line =
     (case stream_extract line [] of (stream, word, _) \<Rightarrow>
        do {
          first \<leftarrow> validChord word;
          if \<not> first then Some False
          else
            (case stream_extract stream word of (_, word, _) \<Rightarrow>
               do {
                 second \<leftarrow> validChord word;
                 if \<not> second then Some False else Some True
               })
        })"

text \<open>
  The inner loop of \<open>transposeTab\<close>, \<open>while (lnStream >> word)\<close>: \<open>lnStream\<close> is the
  unread part of the copy of the line made before the loop, \<open>line\<close> the line as
  rewritten so far and \<open>strInd\<close> the search cursor. It returns the line and the last
  word read.
\<close>

function transposeWords ::
  "string \<Rightarrow> string \<Rightarrow> string \<Rightarrow> int \<Rightarrow> Key \<Rightarrow> Key \<Rightarrow> (string \<times> string) option" where
  "transposeWords lnStream word line strInd oldKey newKey =
     (case stream_extract lnStream word of (lnStream', word', good) \<Rightarrow>
        if \<not> good then Some (line, word')
        else
          do {
            valid \<leftarrow> validChord word';
            if valid then
              do {
                let chordInd = int_of_size_t (str_find_from line word' (size_t_of_int strInd));
                newChord \<leftarrow> transposeChord word' oldKey newKey;
                line' \<leftarrow> str_replace line (size_t_of_int chordInd) (length word') newChord;
                transposeWords lnStream' word' line' (int32 (strInd + int (length newChord)))
                  oldKey newKey
              }
            else transposeWords lnStream' word' line strInd oldKey newKey
          })"
  by pat_completeness auto
termination
proof -
  have shorter: "length (dropWhile (\<lambda>c. \<not> isspace c) (dropWhile isspace s)) < length s"
    if "dropWhile isspace s \<noteq> []" for s
  proof -
    from that obtain c t where ct: "dropWhile isspace s = c # t"
      by (cases "dropWhile isspace s") auto
    then have "\<not> isspace c"
      using hd_dropWhile [of isspace s] by auto
    then have "dropWhile (\<lambda>c. \<not> isspace c) (c # t) = dropWhile (\<lambda>c. \<not> isspace c) t"
      by simp
    moreover have "length (dropWhile (\<lambda>c. \<not> isspace c) t) \<le> length t"
      by (rule length_dropWhile_le)
    moreover have "length (c # t) \<le> length s"
      using length_dropWhile_le [of isspace s] ct by simp
    ultimately show ?thesis
      using ct by simp
  qed
  show ?thesis
    by (relation "measure (\<lambda>(lnStream, word, line, strInd, oldKey, newKey). length lnStream)")
      (auto simp: stream_extract_def Let_def shorter split: if_splits)
qed

declare transposeWords.simps [simp del]

text \<open>
  The outer loop, over the lines that \<open>getline\<close> delivers: \<open>newTab\<close> is the text built
  so far. \<open>word\<close> is declared outside both loops and keeps its value from line to line.
\<close>

fun transposeTab_loop ::
  "string list \<Rightarrow> string \<Rightarrow> string \<Rightarrow> Key \<Rightarrow> Key \<Rightarrow> string option" where
  "transposeTab_loop [] word newTab oldKey newKey = Some newTab"
| "transposeTab_loop (line # rest) word newTab oldKey newKey =
     do {
       chordLine \<leftarrow> isChordLine line;
       (line', word') \<leftarrow>
         (if chordLine then transposeWords line word line 0 oldKey newKey
          else Some (line, word));
       transposeTab_loop rest word' (newTab @ line' @ [newline]) oldKey newKey
     }"

definition transposeTab :: "string \<Rightarrow> Key \<Rightarrow> Key \<Rightarrow> string option" where
  "transposeTab tab oldKey newKey = transposeTab_loop (getlines tab []) [] [] oldKey newKey"

section \<open>Note lookup and keys\<close>

text \<open>
  The loop of \<open>getNoteIndex\<close> never reads outside the dictionary: it returns, and the
  result is 0 or an index of the dictionary.
\<close>

lemma getNoteIndex_loop_total:
  "\<exists>r. getNoteIndex_loop chromatic n i = Some r \<and> 0 \<le> r \<and> (r = 0 \<or> r < int (length chromatic))"
proof (induction chromatic n i rule: getNoteIndex_loop.induct)
  case (1 chromatic n i)
  show ?case
  proof (cases "i < length chromatic")
    case False
    then show ?thesis
      by (subst getNoteIndex_loop.simps) simp
  next
    case True
    then have at_i: "at chromatic (int i) = Some (chromatic ! i)"
      by (simp add: at_def)
    show ?thesis
    proof (cases "chromatic ! i = n")
      case True
      with \<open>i < length chromatic\<close> at_i show ?thesis
        by (subst getNoteIndex_loop.simps) simp
    next
      case False
      with "1.IH" [OF \<open>i < length chromatic\<close> at_i] \<open>i < length chromatic\<close> at_i show ?thesis
        by (subst getNoteIndex_loop.simps) simp
    qed
  qed
qed

lemma getNoteIndex_loop_absent:
  "n \<notin> set (drop i chromatic) \<Longrightarrow> getNoteIndex_loop chromatic n i = Some 0"
proof (induction chromatic n i rule: getNoteIndex_loop.induct)
  case (1 chromatic n i)
  show ?case
  proof (cases "i < length chromatic")
    case False
    then show ?thesis
      by (subst getNoteIndex_loop.simps) simp
  next
    case True
    then have at_i: "at chromatic (int i) = Some (chromatic ! i)"
      by (simp add: at_def)
    from True have split: "drop i chromatic = chromatic ! i # drop (i + 1) chromatic"
      by (simp add: Cons_nth_drop_Suc)
    with "1.prems" have ne: "chromatic ! i \<noteq> n" and rest: "n \<notin> set (drop (i + 1) chromatic)"
      by auto
    from "1.IH" [OF True at_i ne rest] True at_i ne show ?thesis
      by (subst getNoteIndex_loop.simps) simp
  qed
qed

lemma getNoteIndex_total:
  "\<exists>i. getNoteIndex chromatic w = Some i \<and> 0 \<le> i \<and> (i = 0 \<or> i < int (length chromatic))"
  unfolding getNoteIndex_def by (rule getNoteIndex_loop_total)

lemma getNoteIndex_absent:
  "formatNote w \<notin> set chromatic \<Longrightarrow> getNoteIndex chromatic w = Some 0"
  unfolding getNoteIndex_def by (rule getNoteIndex_loop_absent) simp

lemma getNoteIndex_12:
  assumes "length chromatic = 12"
  shows "\<exists>i. getNoteIndex chromatic w = Some i \<and> 0 \<le> i \<and> i < 12"
  using getNoteIndex_total [of chromatic w] assms by auto

lemma length_dicts: "length notes_dict = 12" "length altNotes = 12"
  by (simp_all add: notes_dict_def altNotes_def)

lemma Key_of_total:
  "\<exists>k. Key_of n = Some k \<and> getKeyName k = n \<and> 0 \<le> keyIndex k \<and> keyIndex k < 12 \<and>
     usesAltNotes k = isAltNote n"
proof (cases "isAltNote n")
  case True
  from getNoteIndex_12 [OF length_dicts(2), of n] obtain i
    where "getNoteIndex altNotes n = Some i" "0 \<le> i" "i < 12"
    by blast
  with True show ?thesis
    by (simp add: Key_of_def getKeyName_def keyIndex_def usesAltNotes_def)
next
  case False
  from getNoteIndex_12 [OF length_dicts(1), of n] obtain i
    where "getNoteIndex notes_dict n = Some i" "0 \<le> i" "i < 12"
    by blast
  with False show ?thesis
    by (simp add: Key_of_def getKeyName_def keyIndex_def usesAltNotes_def)
qed

lemma int32_id: "- (2 ^ 31) \<le> i \<Longrightarrow> i < 2 ^ 31 \<Longrightarrow> int32 i = i"
  by (simp add: int32_def)

text \<open>
  In terms of the indices the keys store: for any two key names the two keys are built
  without failure, their interval lies in \<open>[0, 12)\<close>, equals the difference of the stored
  indices modulo 12, adds up with the interval in the other direction to a multiple of
  12, and both intervals are 0 exactly when the stored indices are equal. The stored
  index is the place of the name in its dictionary only for the names that
  \<open>getNoteIndex\<close> finds there.
\<close>

lemma getInterval_index_arithmetic:
  "\<exists>k1 k2. Key_of n1 = Some k1 \<and> Key_of n2 = Some k2 \<and>
     0 \<le> getInterval k1 k2 \<and> getInterval k1 k2 < 12 \<and>
     getInterval k1 k2 = (keyIndex k2 - keyIndex k1) mod 12 \<and>
     (getInterval k1 k2 + getInterval k2 k1) mod 12 = 0 \<and>
     ((getInterval k1 k2 = 0 \<and> getInterval k2 k1 = 0) = (keyIndex k1 = keyIndex k2))"
proof -
  from Key_of_total [of n1] obtain k1
    where k1: "Key_of n1 = Some k1" "0 \<le> keyIndex k1" "keyIndex k1 < 12"
    by blast
  from Key_of_total [of n2] obtain k2
    where k2: "Key_of n2 = Some k2" "0 \<le> keyIndex k2" "keyIndex k2 < 12"
    by blast
  define d where "d = keyIndex k2 - keyIndex k1"
  have d: "- 12 < d" "d < 12"
    using k1 k2 by (simp_all add: d_def)
  have fits: "int32 d = d" "int32 (- d) = - d" "int32 (12 + d) = 12 + d"
    "int32 (12 + - d) = 12 + - d"
    using d by (simp_all add: int32_id)
  have fwd: "getInterval k1 k2 = (if d < 0 then 12 + d else d)"
    using fits by (simp add: getInterval_def d_def Let_def)
  have "keyIndex k1 - keyIndex k2 = - d"
    by (simp add: d_def)
  then have bwd: "getInterval k2 k1 = (if 0 < d then 12 - d else - d)"
    using fits by (simp add: getInterval_def Let_def)
  have range: "0 \<le> getInterval k1 k2" "getInterval k1 k2 < 12"
    using d by (simp_all add: fwd)
  have modulo: "getInterval k1 k2 = (keyIndex k2 - keyIndex k1) mod 12"
    using d unfolding fwd d_def [symmetric] by (simp split: if_splits) presburger
  have inverse: "(getInterval k1 k2 + getInterval k2 k1) mod 12 = 0"
    using d by (simp add: fwd bwd)
  have zero: "(getInterval k1 k2 = 0 \<and> getInterval k2 k1 = 0) = (keyIndex k1 = keyIndex k2)"
    using d by (auto simp: fwd bwd d_def)
  show ?thesis
  proof (intro exI conjI)
    show "Key_of n1 = Some k1" "Key_of n2 = Some k2"
      by fact+
  qed (fact range modulo inverse zero)+
qed

section \<open>Roots\<close>

lemma getRoot_cases: "getRoot w = Some (take 2 w) \<or> getRoot w = Some (take 1 w)"
  by (simp add: getRoot_def substr_def split: prod.split)

text \<open>
  C10. \<open>getRoot\<close> returns, and its result is a prefix of the word: of length 1 or 2 when
  the word is not empty, and empty when the word is empty. So the call
  \<open>word.substr(root.size())\<close> of \<open>validChord\<close> and \<open>transposeChord\<close> is in range, and
  root and remainder together are the word.
\<close>

theorem getRoot_prefix:
  "\<exists>root. getRoot w = Some root \<and> prefix root w \<and>
     (w \<noteq> [] \<longrightarrow> length root = 1 \<or> length root = 2) \<and>
     (w = [] \<longrightarrow> root = []) \<and>
     (\<exists>qual. substr_from w (length root) = Some qual \<and> w = root @ qual)"
proof -
  from getRoot_cases [of w] obtain k where k: "k = 1 \<or> k = 2" and root: "getRoot w = Some (take k w)"
    by auto
  have "prefix (take k w) w"
    by (rule take_is_prefix)
  moreover have "length (take k w) = 1 \<or> length (take k w) = 2" if "w \<noteq> []"
  proof -
    from that have "1 \<le> length w"
      by (cases w) simp_all
    with k show ?thesis
      unfolding length_take by linarith
  qed
  moreover have "substr_from w (length (take k w)) = Some (drop k w)"
    by (simp add: substr_from_def min_def)
  ultimately show ?thesis
    using root by auto
qed

theorem getRoot_prefix_witness:
  "''Gbb5#9'' \<noteq> [] \<and>
   (\<exists>root. getRoot ''Gbb5#9'' = Some root \<and> prefix root ''Gbb5#9'' \<and>
      (length root = 1 \<or> length root = 2) \<and>
      (\<exists>qual. substr_from ''Gbb5#9'' (length root) = Some qual \<and> ''Gbb5#9'' = root @ qual)) \<and>
   getRoot [] = Some []"
  using getRoot_prefix [of "''Gbb5#9''"] getRoot_prefix [of "[]"]
  by simp

section \<open>Totality of the chord grammar\<close>

text \<open>The two equations of the source, for the two functions.\<close>

lemma validChord_unfold:
  "validChord word =
     (if length word = 1 then (if validNote word then Some True else Some False)
      else do {
        slash \<leftarrow> validSlashChord word;
        if slash then Some True
        else do {
          root \<leftarrow> getRoot word;
          if \<not> validNote root then Some False
          else if root = word then Some True
          else do {
            qual \<leftarrow> substr_from word (length root);
            Some (validChordQuality qual) } } })"
  unfolding validChord_def validSlashChord_def
  by (subst chord_grammar.simps) simp

lemma validSlashChord_unfold:
  "validSlashChord word =
     (if str_find word ''/'' = None then Some False
      else if find_first_of word ''/'' \<noteq> find_last_of word ''/'' then Some False
      else
        let slashInd = int_of_size_t (str_find word ''/'') in
        if size_t_of_int slashInd = length word - 1 then Some False
        else do {
          preSl \<leftarrow> substr word 0 (size_t_of_int slashInd);
          postSl \<leftarrow> substr_from word (size_t_of_int (int32 (slashInd + 1)));
          pre \<leftarrow> validChord preSl;
          if pre \<and> validNote postSl then Some True else Some False })"
  unfolding validChord_def validSlashChord_def
  by (subst chord_grammar.simps) simp

lemma str_find_bound: "str_find w p = Some i \<Longrightarrow> p \<noteq> [] \<Longrightarrow> i < length w"
  by (induction w arbitrary: i) (auto split: if_splits)

lemma validChord_after_slash:
  assumes "validSlashChord w = Some slash"
  shows "\<exists>b. validChord w = Some b"
proof -
  from getRoot_cases [of w] obtain root where root: "getRoot w = Some root"
    and len: "length root \<le> length w"
    by auto
  then have "substr_from w (length root) = Some (drop (length root) w)"
    by (simp add: substr_from_def)
  with assms root show ?thesis
    by (subst validChord_unfold) auto
qed

lemma chord_grammar_returns:
  "length w \<le> 2 ^ 31 \<Longrightarrow> \<exists>b. validSlashChord w = Some b"
proof (induction "length w" arbitrary: w rule: less_induct)
  case less
  show ?case
  proof (cases "str_find w ''/''")
    case None
    then show ?thesis
      by (subst validSlashChord_unfold) auto
  next
    case (Some i)
    then have i: "i < length w"
      using str_find_bound [of w "''/''" i] by simp
    with less.prems have small: "int i < 2 ^ 31"
      by simp
    then have slashInd: "int_of_size_t (Some i) = int i"
      by (simp add: int_of_size_t_def int32_id)
    have conv_ind: "size_t_of_int (int i) = i"
      by (simp add: size_t_of_int_def)
    have pre: "substr w 0 i = Some (take i w)"
      by (simp add: substr_def)
    show ?thesis
    proof (cases "find_first_of w ''/'' \<noteq> find_last_of w ''/'' \<or> i = length w - 1")
      case True
      with Some slashInd conv_ind show ?thesis
        by (subst validSlashChord_unfold) (auto simp: Let_def)
    next
      case False
      then have "i \<noteq> length w - 1"
        by simp
      with i have next_i: "i + 1 < length w"
        by linarith
      with less.prems have "int i + 1 < 2 ^ 31"
        by simp
      then have "int32 (int i + 1) = int i + 1"
        by (simp add: int32_id)
      then have conv_next: "size_t_of_int (int32 (int i + 1)) = i + 1"
        by (simp add: size_t_of_int_def)
      have post: "substr_from w (i + 1) = Some (drop (i + 1) w)"
        using next_i by (simp add: substr_from_def)
      have "length (take i w) < length w" "length (take i w) \<le> 2 ^ 31"
        using i less.prems by simp_all
      then have "\<exists>b. validSlashChord (take i w) = Some b"
        by (rule less.hyps)
      then obtain b where "validChord (take i w) = Some b"
        using validChord_after_slash by blast
      with False Some slashInd conv_ind conv_next pre post show ?thesis
        by (subst validSlashChord_unfold) (auto simp: Let_def)
    qed
  qed
qed

text \<open>
  A word of \<open>2^31\<close> letters \<open>a\<close> followed by \<open>/a\<close>: the index of the slash, \<open>2^31\<close>,
  is \<open>- 2^31\<close> in \<open>int slashInd\<close>, and \<open>word.substr(slashInd + 1)\<close> starts far beyond
  the end of the word.
\<close>

lemma find_slash_after_run:
  "str_find (replicate n (CHR ''a'') @ ''/a'') ''/'' = Some n"
  "find_first_of (replicate n (CHR ''a'') @ ''/a'') ''/'' = Some n"
  "find_last_of (replicate n (CHR ''a'') @ ''/a'') ''/'' = Some n"
  by (induction n) simp_all

lemma validSlashChord_slash_at_2_31:
  assumes n: "n = 2 ^ 31"
  shows "validSlashChord (replicate n (CHR ''a'') @ ''/a'') = None"
proof -
  let ?w = "replicate n (CHR ''a'') @ ''/a''"
  have len: "length ?w = 2 ^ 31 + 2"
    by (simp add: n)
  have slashInd: "int_of_size_t (Some n) = - (2 ^ 31)"
    by (simp add: int_of_size_t_def int32_def n)
  have conv_ind: "size_t_of_int (- (2 ^ 31)) = 2 ^ 64 - 2 ^ 31"
    by (simp add: size_t_of_int_def)
  have conv_next: "size_t_of_int (int32 (- (2 ^ 31) + 1)) = 2 ^ 64 - 2 ^ 31 + 1"
    by (simp add: size_t_of_int_def int32_def)
  have pre: "substr ?w 0 (2 ^ 64 - 2 ^ 31) = Some (take (2 ^ 64 - 2 ^ 31) ?w)"
    by (simp add: substr_def)
  have post: "substr_from ?w (2 ^ 64 - 2 ^ 31 + 1) = None"
    unfolding substr_from_def len by simp
  have guard: "(2 ^ 64 - 2 ^ 31 :: nat) \<noteq> length ?w - 1"
    unfolding len by simp
  show ?thesis
    apply (subst validSlashChord_unfold)
    apply (simp only: find_slash_after_run slashInd conv_ind conv_next pre post Let_def)
    using guard apply simp
    done
qed

text \<open>
  C8, as the claim states it, fails on that word: \<open>validSlashChord\<close> throws, and so
  does \<open>validChord\<close>, which calls it.
\<close>

theorem chord_grammar_throws_at_2_31:
  "validSlashChord (replicate (2 ^ 31) (CHR ''a'') @ ''/a'') = None \<and>
   validChord (replicate (2 ^ 31) (CHR ''a'') @ ''/a'') = None"
proof -
  have slash: "validSlashChord (replicate (2 ^ 31) (CHR ''a'') @ ''/a'') = None"
    by (rule validSlashChord_slash_at_2_31) (rule refl)
  have "length (replicate (2 ^ 31) (CHR ''a'') @ ''/a'') \<noteq> 1"
    by simp
  then have "validChord (replicate (2 ^ 31) (CHR ''a'') @ ''/a'') = None"
    by (subst validChord_unfold) (simp only: slash if_False Option.bind.simps)
  with slash show ?thesis
    by (rule conjI)
qed

text \<open>
  C8, amended. On every string of at most \<open>2^31\<close> characters \<open>validChord\<close> and
  \<open>validSlashChord\<close> return a boolean: no \<open>substr\<close> they call is out of range and the
  recursion ends. On every string \<open>getNoteIndex\<close> returns an index in \<open>[0, 12)\<close> for
  each of the two note dictionaries, and 0 when the formatted note is not in the
  dictionary. (\<open>validNote\<close> and \<open>validChordQuality\<close> only read a stream and compare
  strings: they make no call that can throw, and are plain predicates here.)
\<close>

theorem chord_grammar_total:
  "(length w \<le> 2 ^ 31 \<longrightarrow>
      (\<exists>b. validChord w = Some b) \<and> (\<exists>b. validSlashChord w = Some b)) \<and>
   (\<exists>i. getNoteIndex notes_dict w = Some i \<and> 0 \<le> i \<and> i < 12) \<and>
   (\<exists>i. getNoteIndex altNotes w = Some i \<and> 0 \<le> i \<and> i < 12) \<and>
   (formatNote w \<notin> set notes_dict \<longrightarrow> getNoteIndex notes_dict w = Some 0) \<and>
   (formatNote w \<notin> set altNotes \<longrightarrow> getNoteIndex altNotes w = Some 0)"
proof -
  have "(\<exists>b. validChord w = Some b) \<and> (\<exists>b. validSlashChord w = Some b)"
    if "length w \<le> 2 ^ 31"
    using chord_grammar_returns [OF that] validChord_after_slash [of w] by blast
  then show ?thesis
    using getNoteIndex_12 [OF length_dicts(1), of w] getNoteIndex_12 [OF length_dicts(2), of w]
      getNoteIndex_absent [of w notes_dict] getNoteIndex_absent [of w altNotes]
    by blast
qed

theorem chord_grammar_total_witness:
  "length ''A/B/C'' \<le> 2 ^ 31 \<and>
   validChord ''A/B/C'' = Some False \<and> validSlashChord ''A/B/C'' = Some False \<and>
   formatNote ''A/B/C'' \<notin> set notes_dict \<and> getNoteIndex notes_dict ''A/B/C'' = Some 0 \<and>
   formatNote ''A/B/C'' \<notin> set altNotes \<and> getNoteIndex altNotes ''A/B/C'' = Some 0 \<and>
   validChord [] = Some False \<and> validChord ''?!'' = Some False"
proof -
  have short: "length ''A/B/C'' \<le> 2 ^ 31"
    by simp
  have absent: "formatNote ''A/B/C'' \<notin> set notes_dict" "formatNote ''A/B/C'' \<notin> set altNotes"
    by code_simp+
  from chord_grammar_total [of "''A/B/C''"] short absent
  have "\<exists>b. validChord ''A/B/C'' = Some b" "\<exists>b. validSlashChord ''A/B/C'' = Some b"
    "getNoteIndex notes_dict ''A/B/C'' = Some 0" "getNoteIndex altNotes ''A/B/C'' = Some 0"
    by blast+
  moreover have "validChord ''A/B/C'' = Some False" "validSlashChord ''A/B/C'' = Some False"
    "validChord [] = Some False" "validChord ''?!'' = Some False"
    by code_simp+
  ultimately show ?thesis
    using short absent by blast
qed

section \<open>Transposing from A to C\<close>

text \<open>
  C9. With the old key built from \<open>a\<close> and the new key from \<open>c\<close>, the key indices are 1
  and 4, the interval is 3, \<open>A\<close> is transposed to \<open>C\<close> and \<open>Am7\<close> to \<open>Cm7\<close>.
\<close>

theorem transpose_a_to_c:
  "\<exists>oldKey newKey. Key_of ''a'' = Some oldKey \<and> Key_of ''c'' = Some newKey \<and>
     keyIndex oldKey = 1 \<and> keyIndex newKey = 4 \<and> getInterval oldKey newKey = 3 \<and>
     transposeChord ''A'' oldKey newKey = Some ''C'' \<and>
     transposeChord ''Am7'' oldKey newKey = Some ''Cm7''"
proof -
  let ?a = "\<lparr>keyName = ''a'', key_id = 1, key_alt = False\<rparr>"
  let ?c = "\<lparr>keyName = ''c'', key_id = 4, key_alt = False\<rparr>"
  have "Key_of ''a'' = Some ?a" "Key_of ''c'' = Some ?c"
    by code_simp+
  moreover have "keyIndex ?a = 1" "keyIndex ?c = 4" "getInterval ?a ?c = 3"
    by code_simp+
  moreover have "transposeChord ''A'' ?a ?c = Some ''C''"
    by code_simp
  moreover have "transposeChord ''Am7'' ?a ?c = Some ''Cm7''"
    by code_simp
  ultimately show ?thesis
    by blast
qed

section \<open>Where the code leaves its documented behaviour\<close>

text \<open>
  C1. \<open>getRoot\<close> tests for an accidental at position 1 only when none of the four
  names of \<open>shFl5\<close> occurs in the word. In \<open>Bb7b5#9\<close> the name \<open>b5#9\<close> starts at index
  3, neither 1 nor 2, and the root returned is \<open>B\<close>, not \<open>Bb\<close>: the chord is rejected
  although its quality \<open>7b5#9\<close> is in the vocabulary.
\<close>

theorem getRoot_suffix_at_index_3:
  "str_find ''Bb7b5#9'' ''b5#9'' = Some 3 \<and> getRoot ''Bb7b5#9'' = Some ''B'' \<and>
   validChordQuality ''7b5#9'' \<and> validChord ''Bb7b5#9'' = Some False"
  by code_simp

text \<open>
  C2. The slash chord \<open>Bbmaj7#11/A\<close>, transposed from the key of A to the key of F: the
  text copied after the new root is \<open>chord.substr(root.size(), slashInd)\<close>, which takes
  \<open>slashInd\<close> characters and so, after a root of two characters, runs one character past
  the slash. The old bass note \<open>A\<close> is kept in front of the new one.
\<close>

theorem transposeChord_slash_two_letter_root:
  "Key_of ''a'' = Some \<lparr>keyName = ''a'', key_id = 1, key_alt = False\<rparr> \<and>
   Key_of ''f'' = Some \<lparr>keyName = ''f'', key_id = 9, key_alt = False\<rparr> \<and>
   validSlashChord ''Bbmaj7#11/A'' = Some True \<and>
   transposeChord ''Bbmaj7#11/A'' \<lparr>keyName = ''a'', key_id = 1, key_alt = False\<rparr>
     \<lparr>keyName = ''f'', key_id = 9, key_alt = False\<rparr> = Some ''F#maj7#11/AF''"
  by code_simp

text \<open>
  C3. \<open>bb\<close> is a valid note name, but not a valid chord: \<open>word.find("b")\<close> is the index
  of the first \<open>b\<close>, which is 0, so the root is \<open>b\<close> and the remainder \<open>b\<close> is no chord
  quality. The same name with a capital letter is accepted.
\<close>

theorem validChord_rejects_bb:
  "validNote ''bb'' \<and> str_find ''bb'' ''b'' = Some 0 \<and> getRoot ''bb'' = Some ''b'' \<and>
   validChord ''bb'' = Some False \<and> validChord ''Bb'' = Some True"
  by code_simp

text \<open>
  C4. The line \<open>  A C\<close> (two leading blanks), transposed from A to C. The cursor is
  advanced by the length of each new chord and not set to its end: after \<open>A\<close> has become
  \<open>C\<close> at index 2 the cursor is 1, the search for the next word \<open>C\<close> finds the chord just
  written, and that chord is transposed a second time while the second is left alone.
\<close>

theorem transposeTab_rewrites_replacement:
  "transposeTab ''  A C'' \<lparr>keyName = ''a'', key_id = 1, key_alt = False\<rparr>
     \<lparr>keyName = ''c'', key_id = 4, key_alt = False\<rparr> = Some (''  Eb C'' @ [newline])"
  by code_simp

text \<open>
  C5. \<open>b#\<close> is a valid note name that only the dictionary \<open>altNotes\<close> holds, but
  \<open>isAltNote\<close> does not list it (nor \<open>e#\<close>): it is looked up in the other dictionary,
  where it is absent, and a transposition by 0 into the alternate spelling gives \<open>g#\<close>.
\<close>

theorem transposeNote_zero_b_sharp:
  "validNote ''b#'' \<and> ''b#'' \<in> set altNotes \<and> ''b#'' \<notin> set notes_dict \<and>
   \<not> isAltNote ''b#'' \<and> transposeNote ''b#'' 0 True = Some ''g#'' \<and>
   transposeNote ''e#'' 0 True = Some ''g#''"
  by code_simp

text \<open>
  C6. \<open>e#\<close> is a valid note name, the entry of \<open>altNotes\<close> at index 9, where
  \<open>notes_dict\<close> has \<open>f\<close>. \<open>isAltNote\<close> does not list it, so its key looks it up in
  \<open>notes_dict\<close>, where it is absent, and stores the index 0, that of \<open>ab\<close>. Both
  intervals between the keys of \<open>e#\<close> and \<open>ab\<close> are 0 although the two are different
  pitch classes, and the intervals between the keys of \<open>e#\<close> and \<open>f\<close>, the same pitch
  class, are 9 and 3.
\<close>

theorem getInterval_e_sharp_a_flat:
  "validNote ''e#'' \<and> altNotes ! 9 = ''e#'' \<and> notes_dict ! 9 = ''f'' \<and> notes_dict ! 0 = ''ab'' \<and>
   Key_of ''e#'' = Some \<lparr>keyName = ''e#'', key_id = 0, key_alt = False\<rparr> \<and>
   Key_of ''ab'' = Some \<lparr>keyName = ''ab'', key_id = 0, key_alt = False\<rparr> \<and>
   Key_of ''f'' = Some \<lparr>keyName = ''f'', key_id = 9, key_alt = False\<rparr> \<and>
   getInterval \<lparr>keyName = ''e#'', key_id = 0, key_alt = False\<rparr>
     \<lparr>keyName = ''ab'', key_id = 0, key_alt = False\<rparr> = 0 \<and>
   getInterval \<lparr>keyName = ''ab'', key_id = 0, key_alt = False\<rparr>
     \<lparr>keyName = ''e#'', key_id = 0, key_alt = False\<rparr> = 0 \<and>
   getInterval \<lparr>keyName = ''e#'', key_id = 0, key_alt = False\<rparr>
     \<lparr>keyName = ''f'', key_id = 9, key_alt = False\<rparr> = 9 \<and>
   getInterval \<lparr>keyName = ''f'', key_id = 9, key_alt = False\<rparr>
     \<lparr>keyName = ''e#'', key_id = 0, key_alt = False\<rparr> = 3"
  by code_simp

text \<open>
  C7. A line that holds the single word \<open>A\<close>. The second extraction of \<open>isChordLine\<close>
  fails and leaves \<open>word\<close> as it was, the first word is tested twice, and the line is
  treated as a chord line: transposing from A to C rewrites it.
\<close>

theorem transposeTab_single_chord_line:
  "isChordLine ''A'' = Some True \<and>
   transposeTab ''A'' \<lparr>keyName = ''a'', key_id = 1, key_alt = False\<rparr>
     \<lparr>keyName = ''c'', key_id = 4, key_alt = False\<rparr> = Some (''C'' @ [newline])"
  by code_simp

section \<open>What holds beside these inputs\<close>

text \<open>
  A transposition by 0 gives the note back for every entry of \<open>notes_dict\<close> read in
  \<open>notes_dict\<close>, and for every entry of \<open>altNotes\<close> other than \<open>b#\<close> and \<open>e#\<close> read in
  \<open>altNotes\<close>.
\<close>

lemma transposeNote_zero_notes_dict:
  "n \<in> set notes_dict \<Longrightarrow> transposeNote n 0 False = Some n"
proof -
  have "\<forall>n \<in> set notes_dict. transposeNote n 0 False = Some n"
    by code_simp
  then show "n \<in> set notes_dict \<Longrightarrow> transposeNote n 0 False = Some n"
    by blast
qed

lemma transposeNote_zero_altNotes:
  "n \<in> set altNotes \<Longrightarrow> n \<noteq> ''b#'' \<Longrightarrow> n \<noteq> ''e#'' \<Longrightarrow> transposeNote n 0 True = Some n"
proof -
  have "\<forall>n \<in> set altNotes. n \<noteq> ''b#'' \<longrightarrow> n \<noteq> ''e#'' \<longrightarrow> transposeNote n 0 True = Some n"
    by code_simp
  then show "n \<in> set altNotes \<Longrightarrow> n \<noteq> ''b#'' \<Longrightarrow> n \<noteq> ''e#'' \<Longrightarrow> transposeNote n 0 True = Some n"
    by blast
qed

text \<open>
  A line without a word is not a chord line, and a text none of whose lines is a chord
  line comes back line by line, each line followed by a newline.
\<close>

lemma isChordLine_blank:
  "dropWhile isspace line = [] \<Longrightarrow> isChordLine line = Some False"
proof -
  assume "dropWhile isspace line = []"
  moreover have "validChord [] = Some False"
    by code_simp
  ultimately show ?thesis
    by (simp add: isChordLine_def stream_extract_def)
qed

lemma transposeTab_loop_passthrough:
  "(\<And>l. l \<in> set lines \<Longrightarrow> isChordLine l = Some False) \<Longrightarrow>
   transposeTab_loop lines word newTab oldKey newKey =
     Some (newTab @ concat (map (\<lambda>l. l @ [newline]) lines))"
  by (induction lines arbitrary: newTab) simp_all

end
